theory Spec2Isabelle
  imports Main
begin

section \<open>Line-level alphabet\<close>

text \<open>
  The module \<^verbatim>\<open>digital_to_digital.py\<close> represents bits and signal levels as Python
  integers. Python integers are unbounded, so both are modelled as \<^typ>\<open>int\<close>; the three
  level constants keep their numeric values.
\<close>

definition LOW :: int where
  "LOW = -1"

definition HIGH :: int where
  "HIGH = 1"

definition NO_LINE :: int where
  "NO_LINE = 0"

section \<open>Python list primitives used by the decoders\<close>

text \<open>An out-of-range subscript raises; the exception is a value of the model.\<close>

datatype error = IndexError

text \<open>
  \<^verbatim>\<open>signal[i]\<close> for a non-negative index \<open>i\<close>: the element when the index is in range,
  \<^verbatim>\<open>IndexError\<close> otherwise. (Every subscript in the module is built from
  \<^verbatim>\<open>range(0, len(signal), 2)\<close>, so negative indices do not occur.)
\<close>

definition py_index :: "'a list \<Rightarrow> nat \<Rightarrow> error + 'a" where
  "py_index xs i = (if i < length xs then Inr (xs ! i) else Inl IndexError)"

text \<open>
  \<^verbatim>\<open>signal[i:j]\<close> for \<open>0 \<le> i \<le> j\<close>: a slice never raises, it is cut at the end of
  the list.
\<close>

definition py_slice :: "'a list \<Rightarrow> nat \<Rightarrow> nat \<Rightarrow> 'a list" where
  "py_slice xs i j = take (j - i) (drop i xs)"

text \<open>\<^verbatim>\<open>range(0, n, 2)\<close>: the even numbers below \<open>n\<close>, ascending.\<close>

definition range_step2 :: "nat \<Rightarrow> nat list" where
  "range_step2 n = filter even [0..<n]"

section \<open>NRZ-L\<close>

fun NonReturnToZeroLevel_encode_loop :: "int list \<Rightarrow> int list \<Rightarrow> int list" where
  "NonReturnToZeroLevel_encode_loop result [] = result"
| "NonReturnToZeroLevel_encode_loop result (b # data) =
     (if b = 1 then NonReturnToZeroLevel_encode_loop (result @ [LOW]) data
      else NonReturnToZeroLevel_encode_loop (result @ [HIGH]) data)"

definition NonReturnToZeroLevel_encode :: "int list \<Rightarrow> int list" where
  "NonReturnToZeroLevel_encode data = NonReturnToZeroLevel_encode_loop [] data"

fun NonReturnToZeroLevel_decode_loop :: "int list \<Rightarrow> int list \<Rightarrow> int list" where
  "NonReturnToZeroLevel_decode_loop result [] = result"
| "NonReturnToZeroLevel_decode_loop result (level # signal) =
     (if level = LOW then NonReturnToZeroLevel_decode_loop (result @ [1]) signal
      else NonReturnToZeroLevel_decode_loop (result @ [0]) signal)"

definition NonReturnToZeroLevel_decode :: "int list \<Rightarrow> int list" where
  "NonReturnToZeroLevel_decode signal = NonReturnToZeroLevel_decode_loop [] signal"

section \<open>NRZ-I\<close>

text \<open>
  The loop state is \<open>last_level\<close> and the list built so far. The loop variable
  \<^verbatim>\<open>bit\<close> of the encoders is written \<open>b\<close>: \<open>bit\<close> is a constant of the library.
\<close>

fun NonReturnToZeroInverted_encode_loop :: "int \<Rightarrow> int list \<Rightarrow> int list \<Rightarrow> int list" where
  "NonReturnToZeroInverted_encode_loop last_level result [] = result"
| "NonReturnToZeroInverted_encode_loop last_level result (b # data) =
     (let last_level = (if b = 1 then (if last_level = LOW then HIGH else LOW)
                        else last_level)
      in NonReturnToZeroInverted_encode_loop last_level (result @ [last_level]) data)"

definition NonReturnToZeroInverted_encode :: "int list \<Rightarrow> int list" where
  "NonReturnToZeroInverted_encode data = NonReturnToZeroInverted_encode_loop LOW [] data"

fun NonReturnToZeroInverted_decode_loop :: "int list \<Rightarrow> int \<Rightarrow> int list \<Rightarrow> int list" where
  "NonReturnToZeroInverted_decode_loop result previous_level [] = result"
| "NonReturnToZeroInverted_decode_loop result previous_level (level # signal) =
     (if level \<noteq> previous_level
      then NonReturnToZeroInverted_decode_loop (result @ [1]) level signal
      else NonReturnToZeroInverted_decode_loop (result @ [0]) level signal)"

definition NonReturnToZeroInverted_decode :: "int list \<Rightarrow> int list" where
  "NonReturnToZeroInverted_decode signal = NonReturnToZeroInverted_decode_loop [] LOW signal"

section \<open>Bipolar-AMI\<close>

fun BipolarAMI_encode_loop :: "int \<Rightarrow> int list \<Rightarrow> int list \<Rightarrow> int list" where
  "BipolarAMI_encode_loop last_level result [] = result"
| "BipolarAMI_encode_loop last_level result (b # data) =
     (if b = 1
      then (let last_level = (if last_level = LOW then HIGH else LOW)
            in BipolarAMI_encode_loop last_level (result @ [last_level]) data)
      else BipolarAMI_encode_loop last_level (result @ [NO_LINE]) data)"

definition BipolarAMI_encode :: "int list \<Rightarrow> int list" where
  "BipolarAMI_encode data = BipolarAMI_encode_loop LOW [] data"

fun BipolarAMI_decode_loop :: "int list \<Rightarrow> int list \<Rightarrow> int list" where
  "BipolarAMI_decode_loop result [] = result"
| "BipolarAMI_decode_loop result (level # signal) =
     (if level = NO_LINE then BipolarAMI_decode_loop (result @ [0]) signal
      else BipolarAMI_decode_loop (result @ [1]) signal)"

definition BipolarAMI_decode :: "int list \<Rightarrow> int list" where
  "BipolarAMI_decode signal = BipolarAMI_decode_loop [] signal"

text \<open>
  \<open>last_nonzero\<close> starts as Python's \<^verbatim>\<open>None\<close>; the loop returns \<^verbatim>\<open>True\<close> from
  inside its body at the first repeated pulse.
\<close>

fun BipolarAMI_has_violations_loop :: "int option \<Rightarrow> int list \<Rightarrow> bool" where
  "BipolarAMI_has_violations_loop last_nonzero [] = False"
| "BipolarAMI_has_violations_loop last_nonzero (level # signal) =
     (if level = NO_LINE then BipolarAMI_has_violations_loop last_nonzero signal
      else if (case last_nonzero of None \<Rightarrow> False | Some p \<Rightarrow> level = p) then True
      else BipolarAMI_has_violations_loop (Some level) signal)"

definition BipolarAMI_has_violations :: "int list \<Rightarrow> bool" where
  "BipolarAMI_has_violations signal = BipolarAMI_has_violations_loop None signal"

section \<open>Pseudoternary\<close>

fun Pseudoternary_encode_loop :: "int \<Rightarrow> int list \<Rightarrow> int list \<Rightarrow> int list" where
  "Pseudoternary_encode_loop last_level result [] = result"
| "Pseudoternary_encode_loop last_level result (b # data) =
     (if b = 0
      then (let last_level = (if last_level = LOW then HIGH else LOW)
            in Pseudoternary_encode_loop last_level (result @ [last_level]) data)
      else Pseudoternary_encode_loop last_level (result @ [NO_LINE]) data)"

definition Pseudoternary_encode :: "int list \<Rightarrow> int list" where
  "Pseudoternary_encode data = Pseudoternary_encode_loop LOW [] data"

fun Pseudoternary_decode_loop :: "int list \<Rightarrow> int list \<Rightarrow> int list" where
  "Pseudoternary_decode_loop result [] = result"
| "Pseudoternary_decode_loop result (level # signal) =
     (if level = NO_LINE then Pseudoternary_decode_loop (result @ [1]) signal
      else Pseudoternary_decode_loop (result @ [0]) signal)"

definition Pseudoternary_decode :: "int list \<Rightarrow> int list" where
  "Pseudoternary_decode signal = Pseudoternary_decode_loop [] signal"

fun Pseudoternary_has_violations_loop :: "int option \<Rightarrow> int list \<Rightarrow> bool" where
  "Pseudoternary_has_violations_loop last_nonzero [] = False"
| "Pseudoternary_has_violations_loop last_nonzero (level # signal) =
     (if level = NO_LINE then Pseudoternary_has_violations_loop last_nonzero signal
      else if (case last_nonzero of None \<Rightarrow> False | Some p \<Rightarrow> level = p) then True
      else Pseudoternary_has_violations_loop (Some level) signal)"

definition Pseudoternary_has_violations :: "int list \<Rightarrow> bool" where
  "Pseudoternary_has_violations signal = Pseudoternary_has_violations_loop None signal"

section \<open>Manchester\<close>

fun Manchester_encode_loop :: "int list \<Rightarrow> int list \<Rightarrow> int list" where
  "Manchester_encode_loop result [] = result"
| "Manchester_encode_loop result (b # data) =
     (if b = 1 then Manchester_encode_loop (result @ [LOW, HIGH]) data
      else Manchester_encode_loop (result @ [HIGH, LOW]) data)"

definition Manchester_encode :: "int list \<Rightarrow> int list" where
  "Manchester_encode data = Manchester_encode_loop [] data"

text \<open>
  The decoder walks the indices \<^verbatim>\<open>range(0, len(signal), 2)\<close> and reads the slice
  \<^verbatim>\<open>signal[i:i+2]\<close>, which is one element long at the end of an odd-length signal.
\<close>

fun Manchester_decode_loop :: "int list \<Rightarrow> int list \<Rightarrow> nat list \<Rightarrow> int list" where
  "Manchester_decode_loop signal result [] = result"
| "Manchester_decode_loop signal result (i # indices) =
     (let pair = py_slice signal i (i + 2)
      in if pair = [LOW, HIGH] then Manchester_decode_loop signal (result @ [1]) indices
         else Manchester_decode_loop signal (result @ [0]) indices)"

definition Manchester_decode :: "int list \<Rightarrow> int list" where
  "Manchester_decode signal =
     Manchester_decode_loop signal [] (range_step2 (length signal))"

section \<open>Differential Manchester\<close>

fun DifferentialManchester_encode_loop :: "int \<Rightarrow> int list \<Rightarrow> int list \<Rightarrow> int list" where
  "DifferentialManchester_encode_loop last_level result [] = result"
| "DifferentialManchester_encode_loop last_level result (b # data) =
     (let last_level = (if b = 0 then (if last_level = LOW then HIGH else LOW)
                        else last_level);
          result = result @ [last_level];
          last_level = (if last_level = LOW then HIGH else LOW);
          result = result @ [last_level]
      in DifferentialManchester_encode_loop last_level result data)"

definition DifferentialManchester_encode :: "int list \<Rightarrow> int list" where
  "DifferentialManchester_encode data = DifferentialManchester_encode_loop LOW [] data"

text \<open>
  The decoder walks the same indices and subscripts \<^verbatim>\<open>signal[i]\<close> and
  \<^verbatim>\<open>signal[i+1]\<close>; each subscript may raise, and the bit is appended between the two.
\<close>

fun DifferentialManchester_decode_loop ::
  "int list \<Rightarrow> int list \<Rightarrow> int \<Rightarrow> nat list \<Rightarrow> error + int list" where
  "DifferentialManchester_decode_loop signal result previous_level [] = Inr result"
| "DifferentialManchester_decode_loop signal result previous_level (i # indices) =
     (case py_index signal i of
        Inl e \<Rightarrow> Inl e
      | Inr first_half \<Rightarrow>
          (let result = (if first_half \<noteq> previous_level then result @ [0]
                         else result @ [1])
           in case py_index signal (i + 1) of
                Inl e \<Rightarrow> Inl e
              | Inr second_half \<Rightarrow>
                  DifferentialManchester_decode_loop signal result second_half indices))"

definition DifferentialManchester_decode :: "int list \<Rightarrow> error + int list" where
  "DifferentialManchester_decode signal =
     DifferentialManchester_decode_loop signal [] LOW (range_step2 (length signal))"

section \<open>Properties\<close>

subsection \<open>The memoryless loops are maps\<close>

lemma NonReturnToZeroLevel_encode_loop_map:
  "NonReturnToZeroLevel_encode_loop result data =
     result @ map (\<lambda>b. if b = 1 then LOW else HIGH) data"
  by (induction data arbitrary: result) simp_all

lemma NonReturnToZeroLevel_encode_map:
  "NonReturnToZeroLevel_encode data = map (\<lambda>b. if b = 1 then LOW else HIGH) data"
  by (simp add: NonReturnToZeroLevel_encode_def NonReturnToZeroLevel_encode_loop_map)

lemma NonReturnToZeroLevel_decode_loop_map:
  "NonReturnToZeroLevel_decode_loop result signal =
     result @ map (\<lambda>level. if level = LOW then 1 else 0) signal"
  by (induction signal arbitrary: result) simp_all

lemma NonReturnToZeroLevel_decode_map:
  "NonReturnToZeroLevel_decode signal = map (\<lambda>level. if level = LOW then 1 else 0) signal"
  by (simp add: NonReturnToZeroLevel_decode_def NonReturnToZeroLevel_decode_loop_map)

lemma BipolarAMI_decode_loop_map:
  "BipolarAMI_decode_loop result signal =
     result @ map (\<lambda>level. if level = NO_LINE then 0 else 1) signal"
  by (induction signal arbitrary: result) simp_all

lemma BipolarAMI_decode_map:
  "BipolarAMI_decode signal = map (\<lambda>level. if level = NO_LINE then 0 else 1) signal"
  by (simp add: BipolarAMI_decode_def BipolarAMI_decode_loop_map)

lemma Pseudoternary_decode_loop_map:
  "Pseudoternary_decode_loop result signal =
     result @ map (\<lambda>level. if level = NO_LINE then 1 else 0) signal"
  by (induction signal arbitrary: result) simp_all

lemma Pseudoternary_decode_map:
  "Pseudoternary_decode signal = map (\<lambda>level. if level = NO_LINE then 1 else 0) signal"
  by (simp add: Pseudoternary_decode_def Pseudoternary_decode_loop_map)

subsection \<open>The list built so far is a prefix of the result\<close>

lemma NonReturnToZeroInverted_encode_loop_acc:
  "NonReturnToZeroInverted_encode_loop last_level result data =
     result @ NonReturnToZeroInverted_encode_loop last_level [] data"
proof (induction data arbitrary: last_level result)
  case Nil
  show ?case by simp
next
  case (Cons b data)
  show ?case
    by (simp add: Let_def Cons.IH [of _ "result @ _"] Cons.IH [of _ "[_]"])
qed

lemma NonReturnToZeroInverted_decode_loop_acc:
  "NonReturnToZeroInverted_decode_loop result previous_level signal =
     result @ NonReturnToZeroInverted_decode_loop [] previous_level signal"
proof (induction signal arbitrary: previous_level result)
  case Nil
  show ?case by simp
next
  case (Cons level signal)
  show ?case
    by (simp add: Cons.IH [of "result @ _"] Cons.IH [of "[_]"])
qed

lemma BipolarAMI_encode_loop_acc:
  "BipolarAMI_encode_loop last_level result data =
     result @ BipolarAMI_encode_loop last_level [] data"
proof (induction data arbitrary: last_level result)
  case Nil
  show ?case by simp
next
  case (Cons b data)
  show ?case
    by (simp add: Let_def Cons.IH [of _ "result @ _"] Cons.IH [of _ "[_]"])
qed

lemma Pseudoternary_encode_loop_acc:
  "Pseudoternary_encode_loop last_level result data =
     result @ Pseudoternary_encode_loop last_level [] data"
proof (induction data arbitrary: last_level result)
  case Nil
  show ?case by simp
next
  case (Cons b data)
  show ?case
    by (simp add: Let_def Cons.IH [of _ "result @ _"] Cons.IH [of _ "[_]"])
qed

lemma Manchester_encode_loop_acc:
  "Manchester_encode_loop result data = result @ Manchester_encode_loop [] data"
proof (induction data arbitrary: result)
  case Nil
  show ?case by simp
next
  case (Cons b data)
  show ?case
    by (simp add: Cons.IH [of "result @ _"] Cons.IH [of "[_, _]"])
qed

lemma DifferentialManchester_encode_loop_acc:
  "DifferentialManchester_encode_loop last_level result data =
     result @ DifferentialManchester_encode_loop last_level [] data"
proof (induction data arbitrary: last_level result)
  case Nil
  show ?case by simp
next
  case (Cons b data)
  show ?case
    by (simp add: Let_def Cons.IH [of _ "result @ _"] Cons.IH [of _ "[_, _]"])
qed


subsection \<open>The index-driven decoders, two levels at a time\<close>

lemma range_step2_0: "range_step2 0 = []"
  by (simp add: range_step2_def)

lemma range_step2_1: "range_step2 (Suc 0) = [0]"
  by (simp add: range_step2_def)

lemma upt_Suc_Suc: "[0..<Suc (Suc n)] = 0 # Suc 0 # map (\<lambda>i. i + 2) [0..<n]"
proof -
  have "[0..<Suc (Suc n)] = 0 # map Suc [0..<Suc n]"
    by (simp only: map_Suc_upt upt_conv_Cons [of 0 "Suc (Suc n)"] zero_less_Suc if_True)
  also have "[0..<Suc n] = 0 # map Suc [0..<n]"
    by (simp only: map_Suc_upt upt_conv_Cons [of 0 "Suc n"] zero_less_Suc if_True)
  finally show ?thesis by (simp add: comp_def)
qed

lemma range_step2_Suc_Suc:
  "range_step2 (Suc (Suc n)) = 0 # map (\<lambda>i. i + 2) (range_step2 n)"
  unfolding range_step2_def upt_Suc_Suc by (simp add: filter_map comp_def)

lemma Manchester_decode_loop_acc:
  "Manchester_decode_loop signal result indices =
     result @ Manchester_decode_loop signal [] indices"
proof (induction indices arbitrary: result)
  case Nil
  show ?case by simp
next
  case (Cons i indices)
  show ?case
    by (simp add: Let_def Cons.IH [of "result @ _"] Cons.IH [of "[_]"])
qed

lemma py_slice_shift2: "py_slice (x # y # xs) (i + 2) (i + 2 + 2) = py_slice xs i (i + 2)"
  by (simp add: py_slice_def)

lemma Manchester_decode_loop_shift:
  "Manchester_decode_loop (x # y # signal) result (map (\<lambda>i. i + 2) indices) =
     Manchester_decode_loop signal result indices"
proof (induction indices arbitrary: result)
  case Nil
  show ?case by simp
next
  case (Cons i indices)
  show ?case
    by (simp only: list.map Manchester_decode_loop.simps py_slice_shift2 Cons.IH)
qed

lemma Manchester_decode_Nil: "Manchester_decode [] = []"
  by (simp add: Manchester_decode_def range_step2_0)

lemma Manchester_decode_single: "Manchester_decode [x] = [0]"
  by (simp add: Manchester_decode_def range_step2_1 py_slice_def)

lemma Manchester_decode_pair:
  "Manchester_decode (x # y # signal) =
     (if x = LOW \<and> y = HIGH then 1 else 0) # Manchester_decode signal"
proof -
  have "Manchester_decode (x # y # signal) =
      Manchester_decode_loop (x # y # signal) [] (0 # map (\<lambda>i. i + 2) (range_step2 (length signal)))"
    by (simp add: Manchester_decode_def range_step2_Suc_Suc)
  also have "\<dots> = (if x = LOW \<and> y = HIGH then 1 else 0) #
      Manchester_decode_loop (x # y # signal) [] (map (\<lambda>i. i + 2) (range_step2 (length signal)))"
    by (simp add: py_slice_def Manchester_decode_loop_acc [of _ "[_]"])
  finally show ?thesis
    by (simp only: Manchester_decode_loop_shift Manchester_decode_def)
qed

lemma py_index_shift2: "py_index (x # y # xs) (i + 2) = py_index xs i"
  by (simp add: py_index_def)

lemma py_index_shift2_Suc: "py_index (x # y # xs) (i + 2 + 1) = py_index xs (i + 1)"
  by (simp add: py_index_def)

lemma DifferentialManchester_decode_loop_acc:
  "DifferentialManchester_decode_loop signal result previous_level indices =
     map_sum id ((@) result) (DifferentialManchester_decode_loop signal [] previous_level indices)"
proof (induction indices arbitrary: result previous_level)
  case Nil
  show ?case by simp
next
  case (Cons i indices)
  show ?case
    by (simp add: Let_def Cons.IH [of "result @ _"] Cons.IH [of "[_]"] sum.map_comp comp_def
        split: sum.splits)
qed

lemma DifferentialManchester_decode_loop_shift:
  "DifferentialManchester_decode_loop (x # y # signal) result previous_level
       (map (\<lambda>i. i + 2) indices) =
     DifferentialManchester_decode_loop signal result previous_level indices"
proof (induction indices arbitrary: result previous_level)
  case Nil
  show ?case by simp
next
  case (Cons i indices)
  show ?case
    by (simp only: list.map DifferentialManchester_decode_loop.simps py_index_shift2
        py_index_shift2_Suc Cons.IH)
qed

lemma DifferentialManchester_decode_Nil: "DifferentialManchester_decode [] = Inr []"
  by (simp add: DifferentialManchester_decode_def range_step2_0)

lemma DifferentialManchester_decode_loop_single:
  "DifferentialManchester_decode_loop [x] result previous_level [0] = Inl IndexError"
  by (simp add: py_index_def)


lemma DifferentialManchester_decode_loop_pair:
  "DifferentialManchester_decode_loop (x # y # signal) [] previous_level
       (range_step2 (length (x # y # signal))) =
     map_sum id ((#) (if x \<noteq> previous_level then 0 else 1))
       (DifferentialManchester_decode_loop signal [] y (range_step2 (length signal)))"
proof -
  have "DifferentialManchester_decode_loop (x # y # signal) [] previous_level
       (range_step2 (length (x # y # signal))) =
     DifferentialManchester_decode_loop (x # y # signal) [] previous_level
       (0 # map (\<lambda>i. i + 2) (range_step2 (length signal)))"
    by (simp add: range_step2_Suc_Suc)
  also have "\<dots> = DifferentialManchester_decode_loop (x # y # signal)
       [if x \<noteq> previous_level then 0 else 1] y
       (map (\<lambda>i. i + 2) (range_step2 (length signal)))"
    by (simp add: py_index_def)
  also have "\<dots> = DifferentialManchester_decode_loop signal
       [if x \<noteq> previous_level then 0 else 1] y (range_step2 (length signal))"
    by (simp only: DifferentialManchester_decode_loop_shift)
  finally show ?thesis
    by (cases "DifferentialManchester_decode_loop signal [] y (range_step2 (length signal))")
       (simp_all add: DifferentialManchester_decode_loop_acc [of _ "[_]"])
qed

subsection \<open>Round trip\<close>

lemma toggle_neq: "(if l = LOW then HIGH else LOW) \<noteq> l"
  by (simp add: LOW_def HIGH_def)

lemma NonReturnToZeroInverted_roundtrip_loop:
  "set data \<subseteq> {0, 1} \<Longrightarrow>
   NonReturnToZeroInverted_decode_loop [] last_level
     (NonReturnToZeroInverted_encode_loop last_level [] data) = data"
proof (induction data arbitrary: last_level)
  case Nil
  show ?case by simp
next
  case (Cons b data)
  then have b: "b = 0 \<or> b = 1" and rest: "set data \<subseteq> {0, 1}"
    by auto
  show ?case
    using b toggle_neq [of last_level]
    by (auto simp add: Let_def NonReturnToZeroInverted_encode_loop_acc [of _ "[_]"]
        NonReturnToZeroInverted_decode_loop_acc [of "[_]"] Cons.IH [OF rest])
qed

lemma BipolarAMI_roundtrip_loop:
  "set data \<subseteq> {0, 1} \<Longrightarrow>
   BipolarAMI_decode (BipolarAMI_encode_loop last_level [] data) = data"
proof (induction data arbitrary: last_level)
  case Nil
  show ?case by (simp add: BipolarAMI_decode_map)
next
  case (Cons b data)
  then have b: "b = 0 \<or> b = 1" and rest: "set data \<subseteq> {0, 1}"
    by auto
  show ?case
    using b Cons.IH [OF rest]
    by (auto simp add: Let_def BipolarAMI_encode_loop_acc [of _ "[_]"] BipolarAMI_decode_map
        LOW_def HIGH_def NO_LINE_def)
qed

lemma Pseudoternary_roundtrip_loop:
  "set data \<subseteq> {0, 1} \<Longrightarrow>
   Pseudoternary_decode (Pseudoternary_encode_loop last_level [] data) = data"
proof (induction data arbitrary: last_level)
  case Nil
  show ?case by (simp add: Pseudoternary_decode_map)
next
  case (Cons b data)
  then have b: "b = 0 \<or> b = 1" and rest: "set data \<subseteq> {0, 1}"
    by auto
  show ?case
    using b Cons.IH [OF rest]
    by (auto simp add: Let_def Pseudoternary_encode_loop_acc [of _ "[_]"] Pseudoternary_decode_map
        LOW_def HIGH_def NO_LINE_def)
qed

lemma NonReturnToZeroLevel_roundtrip:
  "set data \<subseteq> {0, 1} \<Longrightarrow> NonReturnToZeroLevel_decode (NonReturnToZeroLevel_encode data) = data"
  by (induction data)
     (auto simp add: NonReturnToZeroLevel_decode_map NonReturnToZeroLevel_encode_map
        LOW_def HIGH_def)

lemma Manchester_roundtrip:
  "set data \<subseteq> {0, 1} \<Longrightarrow> Manchester_decode (Manchester_encode_loop [] data) = data"
proof (induction data)
  case Nil
  show ?case by (simp add: Manchester_decode_Nil)
next
  case (Cons b data)
  then have b: "b = 0 \<or> b = 1" and rest: "set data \<subseteq> {0, 1}"
    by auto
  show ?case
    using b Cons.IH [OF rest]
    by (auto simp add: Manchester_encode_loop_acc [of "[_, _]"] Manchester_decode_pair
        LOW_def HIGH_def)
qed

lemma DifferentialManchester_roundtrip_loop:
  "set data \<subseteq> {0, 1} \<Longrightarrow>
   DifferentialManchester_decode_loop
     (DifferentialManchester_encode_loop last_level [] data) [] last_level
     (range_step2 (length (DifferentialManchester_encode_loop last_level [] data))) = Inr data"
proof (induction data arbitrary: last_level)
  case Nil
  show ?case by (simp add: range_step2_0)
next
  case (Cons b data)
  then have b: "b = 0 \<or> b = 1" and rest: "set data \<subseteq> {0, 1}"
    by auto
  show ?case
  proof (cases "b = 0")
    case True
    define f where "f = (if last_level = LOW then HIGH else LOW)"
    define s where "s = (if f = LOW then HIGH else LOW)"
    have enc: "DifferentialManchester_encode_loop last_level [] (b # data) =
        f # s # DifferentialManchester_encode_loop s [] data"
      using True
      by (simp add: Let_def f_def s_def DifferentialManchester_encode_loop_acc [of _ "[_, _]"])
    have "f \<noteq> last_level"
      unfolding f_def by (rule toggle_neq)
    then show ?thesis
      unfolding enc DifferentialManchester_decode_loop_pair
      using True by (simp add: Cons.IH [OF rest])
  next
    case False
    with b have one: "b = 1" by simp
    define s where "s = (if last_level = LOW then HIGH else LOW)"
    have enc: "DifferentialManchester_encode_loop last_level [] (b # data) =
        last_level # s # DifferentialManchester_encode_loop s [] data"
      using one
      by (simp add: Let_def s_def DifferentialManchester_encode_loop_acc [of _ "[_, _]"])
    show ?thesis
      unfolding enc DifferentialManchester_decode_loop_pair
      using one by (simp add: Cons.IH [OF rest])
  qed
qed

text \<open>
  Claim C1. For every finite bit sequence \<open>b\<close> over \<open>{0, 1}\<close>, decoding the encoding of
  \<open>b\<close> gives \<open>b\<close> back, for each of NRZ-L, NRZ-I, Bipolar-AMI, Pseudoternary, Manchester and
  Differential Manchester, where the encoder and the decoder both start from \<open>LOW\<close>. For
  Differential Manchester, whose decoder can raise, the decoder returns normally.
\<close>

theorem roundtrip_all_schemes:
  assumes "set b \<subseteq> {0, 1}"
  shows "NonReturnToZeroLevel_decode (NonReturnToZeroLevel_encode b) = b
    \<and> NonReturnToZeroInverted_decode (NonReturnToZeroInverted_encode b) = b
    \<and> BipolarAMI_decode (BipolarAMI_encode b) = b
    \<and> Pseudoternary_decode (Pseudoternary_encode b) = b
    \<and> Manchester_decode (Manchester_encode b) = b
    \<and> DifferentialManchester_decode (DifferentialManchester_encode b) = Inr b"
proof -
  have "NonReturnToZeroLevel_decode (NonReturnToZeroLevel_encode b) = b"
    using assms by (rule NonReturnToZeroLevel_roundtrip)
  moreover have "NonReturnToZeroInverted_decode (NonReturnToZeroInverted_encode b) = b"
    unfolding NonReturnToZeroInverted_decode_def NonReturnToZeroInverted_encode_def
    using assms by (rule NonReturnToZeroInverted_roundtrip_loop)
  moreover have "BipolarAMI_decode (BipolarAMI_encode b) = b"
    unfolding BipolarAMI_encode_def using assms by (rule BipolarAMI_roundtrip_loop)
  moreover have "Pseudoternary_decode (Pseudoternary_encode b) = b"
    unfolding Pseudoternary_encode_def using assms by (rule Pseudoternary_roundtrip_loop)
  moreover have "Manchester_decode (Manchester_encode b) = b"
    unfolding Manchester_encode_def using assms by (rule Manchester_roundtrip)
  moreover have "DifferentialManchester_decode (DifferentialManchester_encode b) = Inr b"
    unfolding DifferentialManchester_decode_def DifferentialManchester_encode_def
    using assms by (rule DifferentialManchester_roundtrip_loop)
  ultimately show ?thesis by blast
qed

theorem roundtrip_all_schemes_witness:
  "set [1, 0, 1, 1, 0 :: int] \<subseteq> {0, 1}
    \<and> NonReturnToZeroLevel_decode (NonReturnToZeroLevel_encode [1, 0, 1, 1, 0]) = [1, 0, 1, 1, 0]
    \<and> NonReturnToZeroInverted_decode (NonReturnToZeroInverted_encode [1, 0, 1, 1, 0])
        = [1, 0, 1, 1, 0]
    \<and> BipolarAMI_decode (BipolarAMI_encode [1, 0, 1, 1, 0]) = [1, 0, 1, 1, 0]
    \<and> Pseudoternary_decode (Pseudoternary_encode [1, 0, 1, 1, 0]) = [1, 0, 1, 1, 0]
    \<and> Manchester_decode (Manchester_encode [1, 0, 1, 1, 0]) = [1, 0, 1, 1, 0]
    \<and> DifferentialManchester_decode (DifferentialManchester_encode [1, 0, 1, 1, 0])
        = Inr [1, 0, 1, 1, 0]"
  using roundtrip_all_schemes [of "[1, 0, 1, 1, 0]"] by simp

subsection \<open>Length of the encoded signal\<close>

lemma NonReturnToZeroInverted_encode_loop_length:
  "length (NonReturnToZeroInverted_encode_loop last_level result data) =
     length result + length data"
  by (induction data arbitrary: last_level result) (simp_all add: Let_def)

lemma BipolarAMI_encode_loop_length:
  "length (BipolarAMI_encode_loop last_level result data) = length result + length data"
  by (induction data arbitrary: last_level result) (simp_all add: Let_def)

lemma Pseudoternary_encode_loop_length:
  "length (Pseudoternary_encode_loop last_level result data) = length result + length data"
  by (induction data arbitrary: last_level result) (simp_all add: Let_def)

lemma Manchester_encode_loop_length:
  "length (Manchester_encode_loop result data) = length result + 2 * length data"
  by (induction data arbitrary: result) simp_all

lemma DifferentialManchester_encode_loop_length:
  "length (DifferentialManchester_encode_loop last_level result data) =
     length result + 2 * length data"
  by (induction data arbitrary: last_level result) (simp_all add: Let_def)

lemma encode_length_any_input:
  "length (NonReturnToZeroLevel_encode data) = length data"
  "length (NonReturnToZeroInverted_encode data) = length data"
  "length (BipolarAMI_encode data) = length data"
  "length (Pseudoternary_encode data) = length data"
  "length (Manchester_encode data) = 2 * length data"
  "length (DifferentialManchester_encode data) = 2 * length data"
  by (simp_all add: NonReturnToZeroLevel_encode_map NonReturnToZeroInverted_encode_def
      BipolarAMI_encode_def Pseudoternary_encode_def Manchester_encode_def
      DifferentialManchester_encode_def NonReturnToZeroInverted_encode_loop_length
      BipolarAMI_encode_loop_length Pseudoternary_encode_loop_length
      Manchester_encode_loop_length DifferentialManchester_encode_loop_length)

text \<open>
  Claim C5. For every bit sequence \<open>b\<close> over \<open>{0, 1}\<close>, the encoded signal has as many
  levels as \<open>b\<close> has bits for NRZ-L, NRZ-I, Bipolar-AMI and Pseudoternary, and twice as many
  for Manchester and Differential Manchester. (By \<open>encode_length_any_input\<close> the lengths
  are the same for every list of integers.)
\<close>

theorem encode_length_law:
  assumes "set b \<subseteq> {0, 1}"
  shows "length (NonReturnToZeroLevel_encode b) = length b
    \<and> length (NonReturnToZeroInverted_encode b) = length b
    \<and> length (BipolarAMI_encode b) = length b
    \<and> length (Pseudoternary_encode b) = length b
    \<and> length (Manchester_encode b) = 2 * length b
    \<and> length (DifferentialManchester_encode b) = 2 * length b"
  by (simp only: encode_length_any_input simp_thms)

theorem encode_length_law_witness:
  "set [1, 0, 0 :: int] \<subseteq> {0, 1}
    \<and> length (NonReturnToZeroLevel_encode [1, 0, 0]) = length [1, 0, 0 :: int]
    \<and> length (NonReturnToZeroInverted_encode [1, 0, 0]) = length [1, 0, 0 :: int]
    \<and> length (BipolarAMI_encode [1, 0, 0]) = length [1, 0, 0 :: int]
    \<and> length (Pseudoternary_encode [1, 0, 0]) = length [1, 0, 0 :: int]
    \<and> length (Manchester_encode [1, 0, 0]) = 2 * length [1, 0, 0 :: int]
    \<and> length (DifferentialManchester_encode [1, 0, 0]) = 2 * length [1, 0, 0 :: int]"
  using encode_length_law [of "[1, 0, 0]"] by simp

subsection \<open>Levels emitted by each encoder\<close>

lemma NonReturnToZeroInverted_encode_loop_levels:
  "last_level \<in> {HIGH, LOW} \<Longrightarrow> set result \<subseteq> {HIGH, LOW} \<Longrightarrow>
   set (NonReturnToZeroInverted_encode_loop last_level result data) \<subseteq> {HIGH, LOW}"
  by (induction data arbitrary: last_level result) (simp_all add: Let_def)

lemma Manchester_encode_loop_levels:
  "set result \<subseteq> {HIGH, LOW} \<Longrightarrow> set (Manchester_encode_loop result data) \<subseteq> {HIGH, LOW}"
  by (induction data arbitrary: result) simp_all

lemma DifferentialManchester_encode_loop_Cons:
  "DifferentialManchester_encode_loop last_level [] (b # data) =
     (let first_half = (if b = 0 then (if last_level = LOW then HIGH else LOW) else last_level);
          second_half = (if first_half = LOW then HIGH else LOW)
      in first_half # second_half # DifferentialManchester_encode_loop second_half [] data)"
  by (simp add: Let_def DifferentialManchester_encode_loop_acc [of _ "[_, _]"])

lemma DifferentialManchester_encode_loop_levels:
  "last_level \<in> {HIGH, LOW} \<Longrightarrow>
   set (DifferentialManchester_encode_loop last_level [] data) \<subseteq> {HIGH, LOW}"
proof (induction data arbitrary: last_level)
  case Nil
  show ?case by simp
next
  case (Cons b data)
  define f where "f = (if b = 0 then (if last_level = LOW then HIGH else LOW) else last_level)"
  define s where "s = (if f = LOW then HIGH else LOW)"
  have f: "f \<in> {HIGH, LOW}"
    using Cons.prems by (simp add: f_def)
  have s: "s \<in> {HIGH, LOW}"
    by (simp add: s_def)
  have "DifferentialManchester_encode_loop last_level [] (b # data) =
      f # s # DifferentialManchester_encode_loop s [] data"
    by (simp only: DifferentialManchester_encode_loop_Cons Let_def f_def s_def)
  with f s Cons.IH [OF s] show ?case
    by simp
qed

lemma two_level_encoders_any_input:
  "set (NonReturnToZeroLevel_encode data) \<subseteq> {HIGH, LOW}"
  "set (NonReturnToZeroInverted_encode data) \<subseteq> {HIGH, LOW}"
  "set (Manchester_encode data) \<subseteq> {HIGH, LOW}"
  "set (DifferentialManchester_encode data) \<subseteq> {HIGH, LOW}"
proof -
  show "set (NonReturnToZeroLevel_encode data) \<subseteq> {HIGH, LOW}"
    by (auto simp add: NonReturnToZeroLevel_encode_map)
  show "set (NonReturnToZeroInverted_encode data) \<subseteq> {HIGH, LOW}"
    unfolding NonReturnToZeroInverted_encode_def
    by (rule NonReturnToZeroInverted_encode_loop_levels) simp_all
  show "set (Manchester_encode data) \<subseteq> {HIGH, LOW}"
    unfolding Manchester_encode_def by (rule Manchester_encode_loop_levels) simp
  show "set (DifferentialManchester_encode data) \<subseteq> {HIGH, LOW}"
    unfolding DifferentialManchester_encode_def
    by (rule DifferentialManchester_encode_loop_levels) simp
qed

lemma NO_LINE_not_two_level: "xs \<subseteq> {HIGH, LOW} \<Longrightarrow> NO_LINE \<notin> xs"
  by (auto simp add: HIGH_def LOW_def NO_LINE_def)

text \<open>
  Claim C8. For every bit sequence \<open>b\<close> over \<open>{0, 1}\<close>, every level that the NRZ-L, NRZ-I,
  Manchester and Differential Manchester encoders emit is \<open>HIGH\<close> or \<open>LOW\<close>, never
  \<open>NO_LINE\<close>; the two bipolar encoders do emit \<open>NO_LINE\<close> (Bipolar-AMI for the bit 0,
  Pseudoternary for the bit 1).
\<close>

theorem only_bipolar_family_emits_NO_LINE:
  assumes "set b \<subseteq> {0, 1}"
  shows "set (NonReturnToZeroLevel_encode b) \<subseteq> {HIGH, LOW}
    \<and> set (NonReturnToZeroInverted_encode b) \<subseteq> {HIGH, LOW}
    \<and> set (Manchester_encode b) \<subseteq> {HIGH, LOW}
    \<and> set (DifferentialManchester_encode b) \<subseteq> {HIGH, LOW}
    \<and> NO_LINE \<notin> set (NonReturnToZeroLevel_encode b)
    \<and> NO_LINE \<notin> set (NonReturnToZeroInverted_encode b)
    \<and> NO_LINE \<notin> set (Manchester_encode b)
    \<and> NO_LINE \<notin> set (DifferentialManchester_encode b)
    \<and> NO_LINE \<in> set (BipolarAMI_encode [0])
    \<and> NO_LINE \<in> set (Pseudoternary_encode [1])"
proof -
  have "NO_LINE \<in> set (BipolarAMI_encode [0])"
    by (simp add: BipolarAMI_encode_def)
  moreover have "NO_LINE \<in> set (Pseudoternary_encode [1])"
    by (simp add: Pseudoternary_encode_def)
  ultimately show ?thesis
    by (simp only: two_level_encoders_any_input
        NO_LINE_not_two_level [OF two_level_encoders_any_input(1)]
        NO_LINE_not_two_level [OF two_level_encoders_any_input(2)]
        NO_LINE_not_two_level [OF two_level_encoders_any_input(3)]
        NO_LINE_not_two_level [OF two_level_encoders_any_input(4)] simp_thms)
qed

theorem only_bipolar_family_emits_NO_LINE_witness:
  "set [0, 1, 1 :: int] \<subseteq> {0, 1}
    \<and> set (NonReturnToZeroLevel_encode [0, 1, 1]) \<subseteq> {HIGH, LOW}
    \<and> set (NonReturnToZeroInverted_encode [0, 1, 1]) \<subseteq> {HIGH, LOW}
    \<and> set (Manchester_encode [0, 1, 1]) \<subseteq> {HIGH, LOW}
    \<and> set (DifferentialManchester_encode [0, 1, 1]) \<subseteq> {HIGH, LOW}
    \<and> NO_LINE \<notin> set (NonReturnToZeroLevel_encode [0, 1, 1])
    \<and> NO_LINE \<notin> set (NonReturnToZeroInverted_encode [0, 1, 1])
    \<and> NO_LINE \<notin> set (Manchester_encode [0, 1, 1])
    \<and> NO_LINE \<notin> set (DifferentialManchester_encode [0, 1, 1])
    \<and> NO_LINE \<in> set (BipolarAMI_encode [0])
    \<and> NO_LINE \<in> set (Pseudoternary_encode [1])"
  using only_bipolar_family_emits_NO_LINE [of "[0, 1, 1]"] by simp

subsection \<open>Integers outside the bit alphabet\<close>

lemma NonReturnToZeroInverted_encode_loop_default:
  "NonReturnToZeroInverted_encode_loop last_level result (map (\<lambda>x. if x = 1 then 1 else 0) data) =
     NonReturnToZeroInverted_encode_loop last_level result data"
  by (induction data arbitrary: last_level result) (simp_all add: Let_def)

lemma BipolarAMI_encode_loop_default:
  "BipolarAMI_encode_loop last_level result (map (\<lambda>x. if x = 1 then 1 else 0) data) =
     BipolarAMI_encode_loop last_level result data"
  by (induction data arbitrary: last_level result) (simp_all add: Let_def)

lemma Manchester_encode_loop_default:
  "Manchester_encode_loop result (map (\<lambda>x. if x = 1 then 1 else 0) data) =
     Manchester_encode_loop result data"
  by (induction data arbitrary: result) simp_all

lemma Pseudoternary_encode_loop_default:
  "Pseudoternary_encode_loop last_level result (map (\<lambda>x. if x = 0 then 0 else 1) data) =
     Pseudoternary_encode_loop last_level result data"
  by (induction data arbitrary: last_level result) (simp_all add: Let_def)

lemma DifferentialManchester_encode_loop_default:
  "DifferentialManchester_encode_loop last_level result
       (map (\<lambda>x. if x = 0 then 0 else 1) data) =
     DifferentialManchester_encode_loop last_level result data"
  by (induction data arbitrary: last_level result) (simp_all add: Let_def)

text \<open>
  Claim C10. The default branch taken for an integer that is not a bit differs between the
  schemes. For every list of integers, NRZ-L, NRZ-I, Bipolar-AMI and Manchester encode it
  exactly as the list in which every element other than 1 is replaced by the bit 0, while
  Pseudoternary and Differential Manchester encode it exactly as the list in which every
  element other than 0 is replaced by the bit 1. For example Bipolar-AMI encodes the value 2
  as it encodes 0 and not as it encodes 1, and Pseudoternary encodes 2 as it encodes 1 and
  not as it encodes 0.
\<close>

theorem permissive_default_not_uniform:
  "NonReturnToZeroLevel_encode data =
      NonReturnToZeroLevel_encode (map (\<lambda>x. if x = 1 then 1 else 0) data)
    \<and> NonReturnToZeroInverted_encode data =
      NonReturnToZeroInverted_encode (map (\<lambda>x. if x = 1 then 1 else 0) data)
    \<and> BipolarAMI_encode data = BipolarAMI_encode (map (\<lambda>x. if x = 1 then 1 else 0) data)
    \<and> Manchester_encode data = Manchester_encode (map (\<lambda>x. if x = 1 then 1 else 0) data)
    \<and> Pseudoternary_encode data =
      Pseudoternary_encode (map (\<lambda>x. if x = 0 then 0 else 1) data)
    \<and> DifferentialManchester_encode data =
      DifferentialManchester_encode (map (\<lambda>x. if x = 0 then 0 else 1) data)
    \<and> BipolarAMI_encode [2] = BipolarAMI_encode [0]
    \<and> BipolarAMI_encode [2] \<noteq> BipolarAMI_encode [1]
    \<and> Pseudoternary_encode [2] = Pseudoternary_encode [1]
    \<and> Pseudoternary_encode [2] \<noteq> Pseudoternary_encode [0]"
proof -
  have "NonReturnToZeroLevel_encode data =
      NonReturnToZeroLevel_encode (map (\<lambda>x. if x = 1 then 1 else 0) data)"
    by (simp add: NonReturnToZeroLevel_encode_map comp_def)
  moreover have "BipolarAMI_encode [2] = BipolarAMI_encode [0]"
    by (simp add: BipolarAMI_encode_def)
  moreover have "BipolarAMI_encode [2] \<noteq> BipolarAMI_encode [1]"
    by (simp add: BipolarAMI_encode_def NO_LINE_def HIGH_def LOW_def)
  moreover have "Pseudoternary_encode [2] = Pseudoternary_encode [1]"
    by (simp add: Pseudoternary_encode_def)
  moreover have "Pseudoternary_encode [2] \<noteq> Pseudoternary_encode [0]"
    by (simp add: Pseudoternary_encode_def NO_LINE_def HIGH_def LOW_def)
  ultimately show ?thesis
    by (simp only: NonReturnToZeroInverted_encode_def BipolarAMI_encode_def
        Manchester_encode_def Pseudoternary_encode_def DifferentialManchester_encode_def
        NonReturnToZeroInverted_encode_loop_default BipolarAMI_encode_loop_default
        Manchester_encode_loop_default Pseudoternary_encode_loop_default
        DifferentialManchester_encode_loop_default simp_thms)
qed

theorem permissive_default_not_uniform_witness:
  "NonReturnToZeroLevel_encode [2, 0, 1, -1] = NonReturnToZeroLevel_encode [0, 0, 1, 0]
    \<and> NonReturnToZeroInverted_encode [2, 0, 1, -1] = NonReturnToZeroInverted_encode [0, 0, 1, 0]
    \<and> BipolarAMI_encode [2, 0, 1, -1] = BipolarAMI_encode [0, 0, 1, 0]
    \<and> Manchester_encode [2, 0, 1, -1] = Manchester_encode [0, 0, 1, 0]
    \<and> Pseudoternary_encode [2, 0, 1, -1] = Pseudoternary_encode [1, 0, 1, 1]
    \<and> DifferentialManchester_encode [2, 0, 1, -1] = DifferentialManchester_encode [1, 0, 1, 1]"
  using permissive_default_not_uniform [of "[2, 0, 1, -1]"] by simp

subsection \<open>Pseudoternary against Bipolar-AMI\<close>

lemma Pseudoternary_encode_loop_mirror:
  "Pseudoternary_encode_loop last_level result data =
     BipolarAMI_encode_loop last_level result (map (\<lambda>x. 1 - x) data)"
  by (induction data arbitrary: last_level result) (simp_all add: Let_def)

lemma Pseudoternary_has_violations_loop_eq:
  "Pseudoternary_has_violations_loop last_nonzero signal =
     BipolarAMI_has_violations_loop last_nonzero signal"
  by (induction signal arbitrary: last_nonzero) simp_all

lemma Pseudoternary_has_violations_eq:
  "Pseudoternary_has_violations signal = BipolarAMI_has_violations signal"
  by (simp add: Pseudoternary_has_violations_def BipolarAMI_has_violations_def
      Pseudoternary_has_violations_loop_eq)

text \<open>
  Claim C4. Pseudoternary is Bipolar-AMI with the roles of the bits swapped: for every bit
  sequence \<open>b\<close> over \<open>{0, 1}\<close> the Pseudoternary encoding of \<open>b\<close> is the Bipolar-AMI
  encoding of the complemented sequence \<open>[1 - x for x in b]\<close>; for every level sequence
  \<open>s\<close> the Pseudoternary decoding of \<open>s\<close> is the complement of its Bipolar-AMI decoding;
  and the two violation checks agree on every level sequence.
\<close>

theorem Pseudoternary_mirrors_BipolarAMI:
  assumes "set b \<subseteq> {0, 1}"
  shows "Pseudoternary_encode b = BipolarAMI_encode (map (\<lambda>x. 1 - x) b)
    \<and> Pseudoternary_decode s = map (\<lambda>x. 1 - x) (BipolarAMI_decode s)
    \<and> Pseudoternary_has_violations s = BipolarAMI_has_violations s"
  by (simp add: Pseudoternary_encode_def BipolarAMI_encode_def Pseudoternary_encode_loop_mirror
      Pseudoternary_decode_map BipolarAMI_decode_map Pseudoternary_has_violations_eq comp_def)

theorem Pseudoternary_mirrors_BipolarAMI_witness:
  "set [0, 1, 0, 0 :: int] \<subseteq> {0, 1}
    \<and> Pseudoternary_encode [0, 1, 0, 0] = BipolarAMI_encode [1, 0, 1, 1]
    \<and> Pseudoternary_decode [HIGH, NO_LINE, LOW, LOW] =
        map (\<lambda>x. 1 - x) (BipolarAMI_decode [HIGH, NO_LINE, LOW, LOW])
    \<and> Pseudoternary_has_violations [HIGH, NO_LINE, LOW, LOW] =
        BipolarAMI_has_violations [HIGH, NO_LINE, LOW, LOW]"
  using Pseudoternary_mirrors_BipolarAMI [of "[0, 1, 0, 0]" "[HIGH, NO_LINE, LOW, LOW]"]
  by simp

subsection \<open>Mid-bit transition of Differential Manchester\<close>

lemma DifferentialManchester_encode_loop_midbit:
  "i < length data \<Longrightarrow>
   DifferentialManchester_encode_loop last_level [] data ! (2 * i) \<noteq>
   DifferentialManchester_encode_loop last_level [] data ! (2 * i + 1)"
proof (induction data arbitrary: i last_level)
  case Nil
  then show ?case by simp
next
  case (Cons b data)
  define f where "f = (if b = 0 then (if last_level = LOW then HIGH else LOW) else last_level)"
  define s where "s = (if f = LOW then HIGH else LOW)"
  have enc: "DifferentialManchester_encode_loop last_level [] (b # data) =
      f # s # DifferentialManchester_encode_loop s [] data"
    by (simp only: DifferentialManchester_encode_loop_Cons Let_def f_def s_def)
  have fs: "f \<noteq> s"
    using toggle_neq [of f] by (simp add: s_def)
  show ?case
  proof (cases i)
    case 0
    with fs show ?thesis unfolding enc by simp
  next
    case (Suc j)
    with Cons.prems have "j < length data" by simp
    from Cons.IH [OF this, of s] show ?thesis
      unfolding enc Suc by simp
  qed
qed

text \<open>
  Claim C6. For every bit sequence \<open>b\<close> over \<open>{0, 1}\<close> and every index \<open>i < len(b)\<close>, the two
  half-interval levels that Differential Manchester emits for bit \<open>i\<close>, at positions \<open>2 * i\<close>
  and \<open>2 * i + 1\<close> of the encoded signal, differ: every bit has a transition at its midpoint,
  whatever its value.
\<close>

theorem DifferentialManchester_midbit_transition:
  assumes "set b \<subseteq> {0, 1}" and "i < length b"
  shows "DifferentialManchester_encode b ! (2 * i) \<noteq> DifferentialManchester_encode b ! (2 * i + 1)"
  unfolding DifferentialManchester_encode_def
  using assms(2) by (rule DifferentialManchester_encode_loop_midbit)

theorem DifferentialManchester_midbit_transition_witness:
  "set [0, 1, 1 :: int] \<subseteq> {0, 1} \<and> (2 :: nat) < length [0, 1, 1 :: int]
    \<and> DifferentialManchester_encode [0, 1, 1] ! (2 * 2) \<noteq>
        DifferentialManchester_encode [0, 1, 1] ! (2 * 2 + 1)"
  using DifferentialManchester_midbit_transition [of "[0, 1, 1]" 2] by simp

subsection \<open>First pulse of the bipolar encoders\<close>

lemma BipolarAMI_encode_loop_first_pulse:
  "1 \<in> set data \<Longrightarrow>
   find (\<lambda>level. level \<noteq> NO_LINE) (BipolarAMI_encode_loop LOW [] data) = Some HIGH"
proof (induction data)
  case Nil
  then show ?case by simp
next
  case (Cons b data)
  show ?case
  proof (cases "b = 1")
    case True
    then show ?thesis
      by (simp add: Let_def BipolarAMI_encode_loop_acc [of _ "[_]"] HIGH_def NO_LINE_def)
  next
    case False
    with Cons.prems have "1 \<in> set data" by simp
    from Cons.IH [OF this] False show ?thesis
      by (simp add: BipolarAMI_encode_loop_acc [of _ "[_]"])
  qed
qed

lemma Pseudoternary_encode_loop_first_pulse:
  "0 \<in> set data \<Longrightarrow>
   find (\<lambda>level. level \<noteq> NO_LINE) (Pseudoternary_encode_loop LOW [] data) = Some HIGH"
proof (induction data)
  case Nil
  then show ?case by simp
next
  case (Cons b data)
  show ?case
  proof (cases "b = 0")
    case True
    then show ?thesis
      by (simp add: Let_def Pseudoternary_encode_loop_acc [of _ "[_]"] HIGH_def NO_LINE_def)
  next
    case False
    with Cons.prems have "0 \<in> set data" by simp
    from Cons.IH [OF this] False show ?thesis
      by (simp add: Pseudoternary_encode_loop_acc [of _ "[_]"])
  qed
qed

text \<open>
  Claim C9. For every non-empty bit sequence \<open>b\<close> over \<open>{0, 1}\<close> that contains a bit encoded
  as a pulse (a 1 for Bipolar-AMI, a 0 for Pseudoternary), the first level of the encoded
  signal that is not \<open>NO_LINE\<close> is \<open>HIGH\<close>: the encoder state starts at \<open>LOW\<close> and is
  toggled before the first pulse is emitted.
\<close>

theorem bipolar_first_pulse_is_HIGH:
  assumes "b \<noteq> []" and "set b \<subseteq> {0, 1}"
  shows "(1 \<in> set b \<longrightarrow>
        find (\<lambda>level. level \<noteq> NO_LINE) (BipolarAMI_encode b) = Some HIGH)
    \<and> (0 \<in> set b \<longrightarrow>
        find (\<lambda>level. level \<noteq> NO_LINE) (Pseudoternary_encode b) = Some HIGH)"
  by (simp add: BipolarAMI_encode_def Pseudoternary_encode_def
      BipolarAMI_encode_loop_first_pulse Pseudoternary_encode_loop_first_pulse)

theorem bipolar_first_pulse_is_HIGH_witness:
  "[0, 0, 1, 1 :: int] \<noteq> [] \<and> set [0, 0, 1, 1 :: int] \<subseteq> {0, 1}
    \<and> (1 :: int) \<in> set [0, 0, 1, 1]
    \<and> find (\<lambda>level. level \<noteq> NO_LINE) (BipolarAMI_encode [0, 0, 1, 1]) = Some HIGH
    \<and> (0 :: int) \<in> set [0, 0, 1, 1]
    \<and> find (\<lambda>level. level \<noteq> NO_LINE) (Pseudoternary_encode [0, 0, 1, 1]) = Some HIGH"
  using bipolar_first_pulse_is_HIGH [of "[0, 0, 1, 1]"] by simp

subsection \<open>The violation check\<close>

lemma toggle_not_NO_LINE: "(if l = LOW then HIGH else LOW) \<noteq> NO_LINE"
  by (simp add: LOW_def HIGH_def NO_LINE_def)

lemma BipolarAMI_encode_loop_no_violation:
  "last_nonzero = None \<or> last_nonzero = Some last_level \<Longrightarrow>
   \<not> BipolarAMI_has_violations_loop last_nonzero (BipolarAMI_encode_loop last_level [] data)"
proof (induction data arbitrary: last_nonzero last_level)
  case Nil
  show ?case by simp
next
  case (Cons b data)
  show ?case
  proof (cases "b = 1")
    case True
    define t where "t = (if last_level = LOW then HIGH else LOW)"
    have enc: "BipolarAMI_encode_loop last_level [] (b # data) =
        t # BipolarAMI_encode_loop t [] data"
      using True by (simp add: Let_def t_def BipolarAMI_encode_loop_acc [of _ "[_]"])
    have t1: "t \<noteq> NO_LINE"
      unfolding t_def by (rule toggle_not_NO_LINE)
    have t2: "t \<noteq> last_level"
      unfolding t_def by (rule toggle_neq)
    have "\<not> BipolarAMI_has_violations_loop (Some t) (BipolarAMI_encode_loop t [] data)"
      by (rule Cons.IH) simp
    with t1 t2 Cons.prems show ?thesis
      unfolding enc by auto
  next
    case False
    have enc: "BipolarAMI_encode_loop last_level [] (b # data) =
        NO_LINE # BipolarAMI_encode_loop last_level [] data"
      using False by (simp add: BipolarAMI_encode_loop_acc [of _ "[_]"])
    from Cons.IH [OF Cons.prems] show ?thesis
      unfolding enc by simp
  qed
qed

lemma BipolarAMI_encode_no_violation:
  "\<not> BipolarAMI_has_violations (BipolarAMI_encode data)"
  unfolding BipolarAMI_has_violations_def BipolarAMI_encode_def
  by (rule BipolarAMI_encode_loop_no_violation) simp

lemma Pseudoternary_encode_no_violation:
  "\<not> Pseudoternary_has_violations (Pseudoternary_encode data)"
proof -
  have "Pseudoternary_encode data = BipolarAMI_encode (map (\<lambda>x. 1 - x) data)"
    by (simp add: Pseudoternary_encode_def BipolarAMI_encode_def
        Pseudoternary_encode_loop_mirror)
  then show ?thesis
    by (simp add: Pseudoternary_has_violations_eq BipolarAMI_encode_no_violation)
qed

text \<open>
  Claim C3. For every bit sequence \<open>b\<close> over \<open>{0, 1}\<close> with at least two 1-bits, the
  Bipolar-AMI encoding of \<open>b\<close> has no violation, and for every such \<open>b\<close> with at least two
  0-bits, the Pseudoternary encoding of \<open>b\<close> has no violation: the alternating-polarity rule
  never emits two consecutive pulses of the same polarity.
  (\<open>BipolarAMI_encode_no_violation\<close> and \<open>Pseudoternary_encode_no_violation\<close> show the same
  for every list of integers.)
\<close>

theorem bipolar_encoders_have_no_violations:
  assumes "set b \<subseteq> {0, 1}"
  shows "(2 \<le> count_list b 1 \<longrightarrow> BipolarAMI_has_violations (BipolarAMI_encode b) = False)
    \<and> (2 \<le> count_list b 0 \<longrightarrow>
        Pseudoternary_has_violations (Pseudoternary_encode b) = False)"
  by (simp add: BipolarAMI_encode_no_violation Pseudoternary_encode_no_violation)

theorem bipolar_encoders_have_no_violations_witness:
  "set [1, 0, 0, 1, 1 :: int] \<subseteq> {0, 1}
    \<and> 2 \<le> count_list [1, 0, 0, 1, 1 :: int] 1
    \<and> BipolarAMI_has_violations (BipolarAMI_encode [1, 0, 0, 1, 1]) = False
    \<and> 2 \<le> count_list [1, 0, 0, 1, 1 :: int] 0
    \<and> Pseudoternary_has_violations (Pseudoternary_encode [1, 0, 0, 1, 1]) = False"
  using bipolar_encoders_have_no_violations [of "[1, 0, 0, 1, 1]"] by simp

lemma consecutive_equal_Cons:
  "(\<exists>i. Suc i < length (x # y # zs) \<and> (x # y # zs) ! i = (x # y # zs) ! Suc i) \<longleftrightarrow>
   x = y \<or> (\<exists>i. Suc i < length (y # zs) \<and> (y # zs) ! i = (y # zs) ! Suc i)"
proof
  assume "\<exists>i. Suc i < length (x # y # zs) \<and> (x # y # zs) ! i = (x # y # zs) ! Suc i"
  then obtain i where i: "Suc i < length (x # y # zs)"
      "(x # y # zs) ! i = (x # y # zs) ! Suc i"
    by blast
  show "x = y \<or> (\<exists>i. Suc i < length (y # zs) \<and> (y # zs) ! i = (y # zs) ! Suc i)"
  proof (cases i)
    case 0
    with i show ?thesis by simp
  next
    case (Suc j)
    with i have "Suc j < length (y # zs) \<and> (y # zs) ! j = (y # zs) ! Suc j"
      by simp
    then show ?thesis by blast
  qed
next
  assume "x = y \<or> (\<exists>i. Suc i < length (y # zs) \<and> (y # zs) ! i = (y # zs) ! Suc i)"
  then show "\<exists>i. Suc i < length (x # y # zs) \<and> (x # y # zs) ! i = (x # y # zs) ! Suc i"
  proof
    assume "x = y"
    then have "Suc 0 < length (x # y # zs) \<and> (x # y # zs) ! 0 = (x # y # zs) ! Suc 0"
      by simp
    then show ?thesis by blast
  next
    assume "\<exists>i. Suc i < length (y # zs) \<and> (y # zs) ! i = (y # zs) ! Suc i"
    then obtain i where "Suc i < length (y # zs)" "(y # zs) ! i = (y # zs) ! Suc i"
      by blast
    then have "Suc (Suc i) < length (x # y # zs) \<and>
        (x # y # zs) ! Suc i = (x # y # zs) ! Suc (Suc i)"
      by simp
    then show ?thesis by blast
  qed
qed

lemma BipolarAMI_has_violations_loop_iff:
  "BipolarAMI_has_violations_loop last_nonzero signal \<longleftrightarrow>
   (\<exists>i. Suc i < length ((case last_nonzero of None \<Rightarrow> [] | Some p \<Rightarrow> [p]) @
                        filter (\<lambda>level. level \<noteq> NO_LINE) signal) \<and>
        ((case last_nonzero of None \<Rightarrow> [] | Some p \<Rightarrow> [p]) @
           filter (\<lambda>level. level \<noteq> NO_LINE) signal) ! i =
        ((case last_nonzero of None \<Rightarrow> [] | Some p \<Rightarrow> [p]) @
           filter (\<lambda>level. level \<noteq> NO_LINE) signal) ! Suc i)"
proof (induction signal arbitrary: last_nonzero)
  case Nil
  show ?case by (cases last_nonzero) simp_all
next
  case (Cons level signal)
  show ?case
  proof (cases "level = NO_LINE")
    case True
    then show ?thesis by (simp add: Cons.IH)
  next
    case False
    show ?thesis
    proof (cases last_nonzero)
      case None
      with False show ?thesis
        by (simp add: Cons.IH [of "Some level"])
    next
      case (Some p)
      have "BipolarAMI_has_violations_loop last_nonzero (level # signal) \<longleftrightarrow>
          level = p \<or> BipolarAMI_has_violations_loop (Some level) signal"
        using False Some by simp
      also have "\<dots> \<longleftrightarrow> p = level \<or>
          (\<exists>i. Suc i < length (level # filter (\<lambda>level. level \<noteq> NO_LINE) signal) \<and>
            (level # filter (\<lambda>level. level \<noteq> NO_LINE) signal) ! i =
            (level # filter (\<lambda>level. level \<noteq> NO_LINE) signal) ! Suc i)"
        by (simp add: Cons.IH [of "Some level"] eq_commute [of level p])
      also have "\<dots> \<longleftrightarrow>
          (\<exists>i. Suc i < length (p # level # filter (\<lambda>level. level \<noteq> NO_LINE) signal) \<and>
            (p # level # filter (\<lambda>level. level \<noteq> NO_LINE) signal) ! i =
            (p # level # filter (\<lambda>level. level \<noteq> NO_LINE) signal) ! Suc i)"
        by (simp only: consecutive_equal_Cons)
      finally show ?thesis
        using False Some by simp
    qed
  qed
qed

text \<open>
  Claim C7. The violation check returns true for a level sequence exactly when the sequence
  that is left after the \<open>NO_LINE\<close> elements are removed contains two consecutive pulses
  that are equal; in particular it is true for \<open>[HIGH, NO_LINE, HIGH]\<close> and false for
  \<open>[HIGH, LOW, HIGH]\<close>. The same holds for the copy of the check in Pseudoternary.
\<close>

theorem has_violations_correct:
  "(BipolarAMI_has_violations signal \<longleftrightarrow>
      (\<exists>i. Suc i < length (filter (\<lambda>level. level \<noteq> NO_LINE) signal) \<and>
           filter (\<lambda>level. level \<noteq> NO_LINE) signal ! i =
           filter (\<lambda>level. level \<noteq> NO_LINE) signal ! Suc i))
    \<and> (Pseudoternary_has_violations signal \<longleftrightarrow>
      (\<exists>i. Suc i < length (filter (\<lambda>level. level \<noteq> NO_LINE) signal) \<and>
           filter (\<lambda>level. level \<noteq> NO_LINE) signal ! i =
           filter (\<lambda>level. level \<noteq> NO_LINE) signal ! Suc i))
    \<and> BipolarAMI_has_violations [HIGH, NO_LINE, HIGH] = True
    \<and> BipolarAMI_has_violations [HIGH, LOW, HIGH] = False
    \<and> Pseudoternary_has_violations [HIGH, NO_LINE, HIGH] = True
    \<and> Pseudoternary_has_violations [HIGH, LOW, HIGH] = False"
proof -
  have iff: "BipolarAMI_has_violations signal \<longleftrightarrow>
      (\<exists>i. Suc i < length (filter (\<lambda>level. level \<noteq> NO_LINE) signal) \<and>
           filter (\<lambda>level. level \<noteq> NO_LINE) signal ! i =
           filter (\<lambda>level. level \<noteq> NO_LINE) signal ! Suc i)"
    unfolding BipolarAMI_has_violations_def
    using BipolarAMI_has_violations_loop_iff [of None signal] by simp
  have t: "BipolarAMI_has_violations [HIGH, NO_LINE, HIGH] = True"
    by (simp add: BipolarAMI_has_violations_def HIGH_def NO_LINE_def)
  have f: "BipolarAMI_has_violations [HIGH, LOW, HIGH] = False"
    by (simp add: BipolarAMI_has_violations_def HIGH_def NO_LINE_def LOW_def)
  from iff t f show ?thesis
    by (simp only: Pseudoternary_has_violations_eq simp_thms)
qed

theorem has_violations_correct_witness:
  "BipolarAMI_has_violations [LOW, NO_LINE, NO_LINE, LOW, HIGH]
    \<and> Pseudoternary_has_violations [LOW, NO_LINE, NO_LINE, LOW, HIGH]
    \<and> filter (\<lambda>level. level \<noteq> NO_LINE) [LOW, NO_LINE, NO_LINE, LOW, HIGH] ! 0 =
       filter (\<lambda>level. level \<noteq> NO_LINE) [LOW, NO_LINE, NO_LINE, LOW, HIGH] ! Suc 0"
proof -
  have "Suc 0 < length (filter (\<lambda>level. level \<noteq> NO_LINE) [LOW, NO_LINE, NO_LINE, LOW, HIGH])
      \<and> filter (\<lambda>level. level \<noteq> NO_LINE) [LOW, NO_LINE, NO_LINE, LOW, HIGH] ! 0 =
        filter (\<lambda>level. level \<noteq> NO_LINE) [LOW, NO_LINE, NO_LINE, LOW, HIGH] ! Suc 0"
    by (simp add: LOW_def NO_LINE_def HIGH_def)
  then have "\<exists>i. Suc i < length (filter (\<lambda>level. level \<noteq> NO_LINE)
        [LOW, NO_LINE, NO_LINE, LOW, HIGH])
      \<and> filter (\<lambda>level. level \<noteq> NO_LINE) [LOW, NO_LINE, NO_LINE, LOW, HIGH] ! i =
        filter (\<lambda>level. level \<noteq> NO_LINE) [LOW, NO_LINE, NO_LINE, LOW, HIGH] ! Suc i"
    by blast
  with has_violations_correct [of "[LOW, NO_LINE, NO_LINE, LOW, HIGH]"] show ?thesis
    by (simp add: LOW_def NO_LINE_def HIGH_def)
qed

subsection \<open>Signals of odd length\<close>

lemma DifferentialManchester_decode_loop_odd:
  "odd (length signal) \<Longrightarrow>
   DifferentialManchester_decode_loop signal [] previous_level (range_step2 (length signal)) =
     Inl IndexError"
proof (induction signal arbitrary: previous_level rule: induct_list012)
  case 1
  then show ?case by simp
next
  case (2 x)
  show ?case by (simp add: range_step2_1 py_index_def)
next
  case (3 x y signal)
  then have "odd (length signal)" by simp
  from "3.IH"(1) [OF this] show ?case
    by (simp only: DifferentialManchester_decode_loop_pair) simp
qed

lemma DifferentialManchester_decode_loop_even:
  "even (length signal) \<Longrightarrow>
   \<exists>bits. DifferentialManchester_decode_loop signal [] previous_level
       (range_step2 (length signal)) = Inr bits \<and> 2 * length bits = length signal"
proof (induction signal arbitrary: previous_level rule: induct_list012)
  case 1
  show ?case by (simp add: range_step2_0)
next
  case (2 x)
  then show ?case by simp
next
  case (3 x y signal)
  then have "even (length signal)" by simp
  from "3.IH"(1) [OF this, of y] obtain bits where
    "DifferentialManchester_decode_loop signal [] y (range_step2 (length signal)) = Inr bits"
    "2 * length bits = length signal"
    by blast
  then show ?case
    by (simp only: DifferentialManchester_decode_loop_pair) simp
qed

lemma DifferentialManchester_decode_odd:
  "odd (length signal) \<Longrightarrow> DifferentialManchester_decode signal = Inl IndexError"
  unfolding DifferentialManchester_decode_def by (rule DifferentialManchester_decode_loop_odd)

lemma DifferentialManchester_decode_even:
  "even (length signal) \<Longrightarrow>
   \<exists>bits. DifferentialManchester_decode signal = Inr bits \<and> 2 * length bits = length signal"
  unfolding DifferentialManchester_decode_def by (rule DifferentialManchester_decode_loop_even)

lemma Manchester_decode_length: "length (Manchester_decode signal) = (length signal + 1) div 2"
  by (induction signal rule: induct_list012)
     (simp_all add: Manchester_decode_Nil Manchester_decode_single Manchester_decode_pair)

text \<open>
  Claim C2. No decoder should fail on a sequence of levels; an odd-length sequence given to
  a decoder that reads two levels per bit should be decoded with its trailing level dropped
  or flagged. The code departs from this on the one-level signal \<open>[HIGH]\<close>: the
  Differential Manchester decoder raises \<^verbatim>\<open>IndexError\<close> at the subscript
  \<^verbatim>\<open>signal[i+1]\<close>, while the Manchester decoder, which reads the slice
  \<^verbatim>\<open>signal[i:i+2]\<close>, returns and decodes the lone level as a bit 0.
  (\<open>DifferentialManchester_decode_odd\<close> and \<open>DifferentialManchester_decode_even\<close>: the
  Differential Manchester decoder raises on every signal of odd length and returns on every
  signal of even length.)
\<close>

theorem DifferentialManchester_decode_odd_length_raises:
  "DifferentialManchester_decode [HIGH] = Inl IndexError \<and> Manchester_decode [HIGH] = [0]"
  by (simp add: DifferentialManchester_decode_def range_step2_1 py_index_def
      Manchester_decode_single)

end
